theory Spec2Isabelle
  imports Main
begin

section \<open>Decimal text of integers\<close>

text \<open>
  The store keeps a counter as the decimal text of an integer (\<^verbatim>\<open>decode_responses=True\<close>
  hands it back as a Python \<^verbatim>\<open>str\<close>), so the model keeps it as a string too.
  \<open>str_int\<close> is the text \<^verbatim>\<open>INCR\<close> writes. The text is read back by two different parsers:
  Python's \<^verbatim>\<open>int()\<close> in the middleware and the server's own in \<^verbatim>\<open>INCR\<close>.
\<close>

definition digit_char :: "nat \<Rightarrow> char" where
  "digit_char d = char_of (48 + d)"

definition digit_of :: "char \<Rightarrow> nat option" where
  "digit_of c = (let k = (of_char c :: nat) in if 48 \<le> k \<and> k \<le> 57 then Some (k - 48) else None)"

function str_nat :: "nat \<Rightarrow> string" where
  "str_nat n = (if n < 10 then [digit_char n] else str_nat (n div 10) @ [digit_char (n mod 10)])"
  by pat_completeness auto
termination
  by (relation "measure id") auto

declare str_nat.simps [simp del]

definition str_int :: "int \<Rightarrow> string" where
  "str_int i = (if i < 0 then CHR ''-'' # str_nat (nat (- i)) else str_nat (nat i))"

fun nat_of_digits :: "nat \<Rightarrow> string \<Rightarrow> nat option" where
  "nat_of_digits acc [] = Some acc"
| "nat_of_digits acc (c # cs) =
     (case digit_of c of None \<Rightarrow> None | Some d \<Rightarrow> nat_of_digits (10 * acc + d) cs)"

text \<open>
  Python's \<^verbatim>\<open>int(s)\<close> on a string: surrounding whitespace is dropped, one sign \<^verbatim>\<open>+\<close> or
  \<^verbatim>\<open>-\<close> may come first, then digits, where leading zeros are allowed and single
  underscores may stand between digits. \<open>None\<close> is where Python raises \<^verbatim>\<open>ValueError\<close>.
  The model reads ASCII; whitespace and digits outside ASCII are not modelled, nor is the
  limit that newer interpreters put on the number of digits.
\<close>

definition is_space :: "char \<Rightarrow> bool" where
  "is_space c = (let k = (of_char c :: nat) in (9 \<le> k \<and> k \<le> 13) \<or> (28 \<le> k \<and> k \<le> 32))"

definition py_strip :: "string \<Rightarrow> string" where
  "py_strip s = rev (dropWhile is_space (rev (dropWhile is_space s)))"

fun digits_us :: "nat \<Rightarrow> string \<Rightarrow> nat option" where
  "digits_us acc [] = Some acc"
| "digits_us acc [c] = (case digit_of c of None \<Rightarrow> None | Some v \<Rightarrow> Some (10 * acc + v))"
| "digits_us acc (c # d # cs) =
     (if c = CHR ''_''
      then (case digit_of d of None \<Rightarrow> None | Some v \<Rightarrow> digits_us (10 * acc + v) cs)
      else (case digit_of c of None \<Rightarrow> None | Some v \<Rightarrow> digits_us (10 * acc + v) (d # cs)))"

definition py_unsigned :: "string \<Rightarrow> nat option" where
  "py_unsigned s =
     (case s of
        [] \<Rightarrow> None
      | c # cs \<Rightarrow> (case digit_of c of None \<Rightarrow> None | Some v \<Rightarrow> digits_us v cs))"

definition int_of_str :: "string \<Rightarrow> int option" where
  "int_of_str s =
     (case py_strip s of
        [] \<Rightarrow> None
      | c # cs \<Rightarrow>
          if c = CHR ''-'' then map_option (\<lambda>n. - int n) (py_unsigned cs)
          else if c = CHR ''+'' then map_option int (py_unsigned cs)
          else map_option int (py_unsigned (c # cs)))"

text \<open>
  The server's reading of a value as a 64-bit integer, as \<^verbatim>\<open>INCR\<close> does it: the text is
  \<^verbatim>\<open>0\<close>, or an optional minus sign and then digits of which the first is not \<^verbatim>\<open>0\<close>, and
  the number fits 64 bits; nothing else is an integer.
\<close>

definition redis_integer :: "string \<Rightarrow> int option" where
  "redis_integer s =
     (if s = ''0'' then Some 0
      else
        (case s of
           [] \<Rightarrow> None
         | c # cs \<Rightarrow>
             (case (if c = CHR ''-'' then cs else s) of
                [] \<Rightarrow> None
              | d # ds \<Rightarrow>
                  if d = CHR ''0'' then None
                  else
                    (case nat_of_digits 0 (d # ds) of
                       None \<Rightarrow> None
                     | Some n \<Rightarrow>
                         if c = CHR ''-''
                         then (if int n \<le> 2 ^ 63 then Some (- int n) else None)
                         else (if int n \<le> 2 ^ 63 - 1 then Some (int n) else None)))))"

section \<open>The key-value store\<close>

text \<open>
  The Redis server is an external collaborator. It is modelled as a map from keys to
  entries; an entry holds the value and the instant (in seconds) at which it expires, if
  it has a time to live. Every command is given the current time \<open>now\<close>. An entry whose
  expiry is not after \<open>now\<close> is gone for every command, as the server evicts it.
\<close>

record entry =
  val :: string
  expires_at :: "nat option"

type_synonym redis = "string \<rightharpoonup> entry"

definition live :: "redis \<Rightarrow> nat \<Rightarrow> string \<Rightarrow> entry option" where
  "live r now k =
     (case r k of
        None \<Rightarrow> None
      | Some e \<Rightarrow>
          (case expires_at e of
             None \<Rightarrow> Some e
           | Some t \<Rightarrow> if now < t then Some e else None))"

text \<open>What a handler can raise.\<close>

datatype error =
    HTTPException nat string
  | AttributeError
  | ConnectionError
  | ResponseError string
  | ValueError
  | DatabaseError

text \<open>
  The commands that changed the store, the database or the task queue, in the order in
  which they were carried out. The log is ghost state: no handler reads it.
\<close>

datatype effect =
    SETEX string int string
  | DEL string
  | INCR string
  | EXPIRE string int
  | UPDATE_COMMIT string string
  | ADD_TASK string string string

text \<open>
  The state the handlers share: the global \<^verbatim>\<open>redis_client\<close> with the content of the
  server behind it (\<open>None\<close> when \<^verbatim>\<open>get_redis_connection\<close> returned \<^verbatim>\<open>None\<close>), whether the
  server can be reached, the \<^verbatim>\<open>users\<close> table behind \<^verbatim>\<open>conn\<close> (email to password hash)
  with whether the database answers, and the queued background tasks.

  The constructor \<^verbatim>\<open>redis.Redis(...)\<close> opens no connection; the client connects when a
  command is sent. So a server that cannot be reached leaves the handle present, and shows
  only when a command is sent: the command raises \<^verbatim>\<open>ConnectionError\<close>. Whether the server
  can be reached is part of the state, and no handler changes it: within one call it is
  the same for every command.
\<close>

record state =
  redis_client :: "redis option"
  server_up :: bool
  users :: "string \<rightharpoonup> string"
  db_alive :: bool
  tasks :: "(string \<times> string \<times> string) list"
  effects :: "effect list"

definition bind_res ::
  "(error + 'a) \<times> state \<Rightarrow> ('a \<Rightarrow> state \<Rightarrow> (error + 'b) \<times> state) \<Rightarrow> (error + 'b) \<times> state" where
  "bind_res m f = (case m of (Inl e, s) \<Rightarrow> (Inl e, s) | (Inr x, s) \<Rightarrow> f x s)"

text \<open>
  The methods of the client. A method called on a client that is \<open>None\<close> raises
  \<^verbatim>\<open>AttributeError\<close>; a command sent to a server that cannot be reached raises
  \<^verbatim>\<open>ConnectionError\<close> and changes nothing. \<^verbatim>\<open>SETEX\<close> with a time to live that is not
  positive is refused by the server ("invalid expire time"), which the client raises as
  \<^verbatim>\<open>ResponseError\<close>; nothing is written then. \<^verbatim>\<open>INCR\<close> of a missing key writes 1 with no
  expiry, and keeps the expiry of a key it finds; it is refused on a value that is not an
  integer or whose successor would leave 64 bits. \<^verbatim>\<open>EXPIRE\<close> touches only a key that exists.
\<close>

definition redis_setex :: "state \<Rightarrow> nat \<Rightarrow> string \<Rightarrow> int \<Rightarrow> string \<Rightarrow> (error + unit) \<times> state" where
  "redis_setex st now k ttl v =
     (case redis_client st of
        None \<Rightarrow> (Inl AttributeError, st)
      | Some r \<Rightarrow>
          if \<not> server_up st then (Inl ConnectionError, st)
          else if ttl \<le> 0 then (Inl (ResponseError ''invalid expire time in setex''), st)
          else (Inr (),
                st\<lparr>redis_client := Some (r(k \<mapsto> \<lparr>val = v, expires_at = Some (now + nat ttl)\<rparr>)),
                   effects := effects st @ [SETEX k ttl v]\<rparr>))"

definition redis_get :: "state \<Rightarrow> nat \<Rightarrow> string \<Rightarrow> error + string option" where
  "redis_get st now k =
     (case redis_client st of
        None \<Rightarrow> Inl AttributeError
      | Some r \<Rightarrow>
          if \<not> server_up st then Inl ConnectionError
          else Inr (map_option val (live r now k)))"

definition redis_delete :: "state \<Rightarrow> string \<Rightarrow> (error + unit) \<times> state" where
  "redis_delete st k =
     (case redis_client st of
        None \<Rightarrow> (Inl AttributeError, st)
      | Some r \<Rightarrow>
          if \<not> server_up st then (Inl ConnectionError, st)
          else (Inr (),
                st\<lparr>redis_client := Some (r(k := None)), effects := effects st @ [DEL k]\<rparr>))"

definition redis_incr :: "state \<Rightarrow> nat \<Rightarrow> string \<Rightarrow> (error + int) \<times> state" where
  "redis_incr st now k =
     (case redis_client st of
        None \<Rightarrow> (Inl AttributeError, st)
      | Some r \<Rightarrow>
          if \<not> server_up st then (Inl ConnectionError, st)
          else
            (case live r now k of
               None \<Rightarrow>
                 (Inr 1,
                  st\<lparr>redis_client := Some (r(k \<mapsto> \<lparr>val = str_int 1, expires_at = None\<rparr>)),
                     effects := effects st @ [INCR k]\<rparr>)
             | Some e \<Rightarrow>
                 (case redis_integer (val e) of
                    None \<Rightarrow> (Inl (ResponseError ''value is not an integer or out of range''), st)
                  | Some n \<Rightarrow>
                      if 2 ^ 63 - 1 < n + 1
                      then (Inl (ResponseError ''increment or decrement would overflow''), st)
                      else (Inr (n + 1),
                            st\<lparr>redis_client := Some (r(k \<mapsto> e\<lparr>val := str_int (n + 1)\<rparr>)),
                               effects := effects st @ [INCR k]\<rparr>))))"

definition redis_expire :: "state \<Rightarrow> nat \<Rightarrow> string \<Rightarrow> int \<Rightarrow> (error + bool) \<times> state" where
  "redis_expire st now k secs =
     (case redis_client st of
        None \<Rightarrow> (Inl AttributeError, st)
      | Some r \<Rightarrow>
          if \<not> server_up st then (Inl ConnectionError, st)
          else
            (case live r now k of
               None \<Rightarrow> (Inr False, st)
             | Some e \<Rightarrow>
                 (Inr True,
                  st\<lparr>redis_client :=
                       Some (if secs \<le> 0 then r(k := None)
                             else r(k \<mapsto> e\<lparr>expires_at := Some (now + nat secs)\<rparr>)),
                     effects := effects st @ [EXPIRE k secs]\<rparr>)))"

section \<open>The handlers of backend_api.py\<close>

definition REDIS_REFRESH_KEY :: "string \<Rightarrow> string" where
  "REDIS_REFRESH_KEY t = ''refresh:'' @ t"

definition REDIS_VERIFY_KEY :: "string \<Rightarrow> string" where
  "REDIS_VERIFY_KEY t = ''verify:'' @ t"

definition REDIS_RATE_LIMIT_KEY :: "string \<Rightarrow> string" where
  "REDIS_RATE_LIMIT_KEY t = ''ratelimit:'' @ t"

text \<open>
  Every handler takes the shared state \<open>st\<close> and the time \<open>now\<close> at which it runs, and
  returns what it raised or returned together with the state it leaves.

  \<^verbatim>\<open>rotate_refresh_token\<close>. \<open>days\<close> is \<^verbatim>\<open>REFRESH_TOKEN_EXPIRE_DAYS\<close>, read from the
  environment; \<open>new_token\<close> is what \<^verbatim>\<open>secrets.token_urlsafe(32)\<close> returned.
\<close>

definition rotate_refresh_token ::
  "int \<Rightarrow> state \<Rightarrow> nat \<Rightarrow> string \<Rightarrow> string \<Rightarrow> (error + string) \<times> state" where
  "rotate_refresh_token days st now new_token old_token =
     bind_res (redis_setex st now (REDIS_REFRESH_KEY new_token) (days * 86400) ''valid'') (\<lambda>_ st1.
     bind_res (redis_delete st1 (REDIS_REFRESH_KEY old_token)) (\<lambda>_ st2.
     (Inr new_token, st2)))"

definition store_email_verification_token ::
  "state \<Rightarrow> nat \<Rightarrow> string \<Rightarrow> string \<Rightarrow> (error + unit) \<times> state" where
  "store_email_verification_token st now email token =
     (if redis_client st \<noteq> None
      then redis_setex st now (REDIS_VERIFY_KEY token) 86400 email
      else (Inr (), st))"

definition get_email_verification_token :: "state \<Rightarrow> nat \<Rightarrow> string \<Rightarrow> error + string option" where
  "get_email_verification_token st now token =
     (if redis_client st \<noteq> None
      then redis_get st now (REDIS_VERIFY_KEY token)
      else Inr None)"

definition send_email_background ::
  "state \<Rightarrow> string \<Rightarrow> string \<Rightarrow> string \<Rightarrow> (error + unit) \<times> state" where
  "send_email_background st email subject body =
     (Inr (), st\<lparr>tasks := tasks st @ [(email, subject, body)],
                effects := effects st @ [ADD_TASK email subject body]\<rparr>)"

text \<open>
  \<^verbatim>\<open>forgot_password\<close>; \<open>reset_token\<close> is what \<^verbatim>\<open>generate_verification_token\<close> returned.
  The framework has checked \<open>email\<close> against \<^verbatim>\<open>EmailStr\<close> before the handler runs, so it
  is a well-formed, non-empty address. The handler does not consult the \<open>users\<close> table.
  The response dictionary has the one key \<^verbatim>\<open>message\<close>; the model returns its value.
\<close>

definition forgot_password :: "state \<Rightarrow> nat \<Rightarrow> string \<Rightarrow> string \<Rightarrow> (error + string) \<times> state" where
  "forgot_password st now reset_token email =
     bind_res (store_email_verification_token st now email reset_token) (\<lambda>_ st1.
     bind_res (send_email_background st1 email ''Password Reset''
                 (''Click here to reset your password: https://yourdomain.com/reset-password?token=''
                  @ reset_token)) (\<lambda>_ st2.
     (Inr ''Password reset email sent.'', st2)))"

text \<open>
  The \<^verbatim>\<open>UPDATE\<close> and its \<^verbatim>\<open>commit\<close>: a database that does not answer raises and changes
  nothing; one that answers rewrites the row of that email, if there is one.
\<close>

definition update_password :: "state \<Rightarrow> string \<Rightarrow> string \<Rightarrow> (error + unit) \<times> state" where
  "update_password st hashed_password email =
     (if db_alive st
      then (Inr (),
            st\<lparr>users := (if users st email = None then users st
                         else (users st)(email \<mapsto> hashed_password)),
               effects := effects st @ [UPDATE_COMMIT hashed_password email]\<rparr>)
      else (Inl DatabaseError, st))"

text \<open>
  \<^verbatim>\<open>reset_password\<close>; \<open>pwd_hash\<close> stands for \<^verbatim>\<open>pwd_context.hash\<close>. Python's
  \<^verbatim>\<open>not email\<close> holds for \<^verbatim>\<open>None\<close> and for the empty string.
\<close>

definition reset_password ::
  "(string \<Rightarrow> string) \<Rightarrow> state \<Rightarrow> nat \<Rightarrow> string \<Rightarrow> string \<Rightarrow> (error + string) \<times> state" where
  "reset_password pwd_hash st now token new_password =
     (case get_email_verification_token st now token of
        Inl e \<Rightarrow> (Inl e, st)
      | Inr None \<Rightarrow> (Inl (HTTPException 400 ''Invalid or expired token.''), st)
      | Inr (Some email) \<Rightarrow>
          if email = [] then (Inl (HTTPException 400 ''Invalid or expired token.''), st)
          else
            bind_res (update_password st (pwd_hash new_password) email) (\<lambda>_ st1.
            bind_res (redis_delete st1 (REDIS_VERIFY_KEY token)) (\<lambda>_ st2.
            (Inr ''Password reset successful.'', st2))))"

definition revoke_token :: "state \<Rightarrow> nat \<Rightarrow> string \<Rightarrow> (error + string) \<times> state" where
  "revoke_token st now token =
     bind_res (redis_setex st now (REDIS_REFRESH_KEY token) 0 ''revoked'') (\<lambda>_ st1.
     (Inr ''Token revoked successfully.'', st1))"

text \<open>
  \<^verbatim>\<open>rate_limit_middleware\<close>. The result \<open>Inr ()\<close> is the point where the source awaits
  \<^verbatim>\<open>call_next(request)\<close>: the request is admitted. Python's
  \<^verbatim>\<open>request_count and int(request_count) > 100\<close> does not call \<^verbatim>\<open>int\<close> on \<^verbatim>\<open>None\<close> or on
  the empty string.
\<close>

definition rate_limit_middleware :: "state \<Rightarrow> nat \<Rightarrow> string \<Rightarrow> (error + unit) \<times> state" where
  "rate_limit_middleware st now user_ip =
     (if redis_client st \<noteq> None
      then
        (case redis_get st now (REDIS_RATE_LIMIT_KEY user_ip) of
           Inl e \<Rightarrow> (Inl e, st)
         | Inr request_count \<Rightarrow>
             (case (case request_count of
                      None \<Rightarrow> Inr False
                    | Some s \<Rightarrow>
                        if s = [] then Inr False
                        else (case int_of_str s of
                                None \<Rightarrow> Inl ValueError
                              | Some n \<Rightarrow> Inr (100 < n))) of
                Inl e \<Rightarrow> (Inl e, st)
              | Inr True \<Rightarrow>
                  (Inl (HTTPException 429 ''Too many requests. Try again later.''), st)
              | Inr False \<Rightarrow>
                  bind_res (redis_incr st now (REDIS_RATE_LIMIT_KEY user_ip)) (\<lambda>_ st1.
                  bind_res (redis_expire st1 now (REDIS_RATE_LIMIT_KEY user_ip) 60) (\<lambda>_ st2.
                  (Inr (), st2)))))
      else (Inr (), st))"

text \<open>
  Requests served one after the other: each is a time and a client address, and the
  middleware's answers are collected in order.
\<close>

fun serve :: "state \<Rightarrow> (nat \<times> string) list \<Rightarrow> (error + unit) list \<times> state" where
  "serve st [] = ([], st)"
| "serve st ((now, user_ip) # reqs) =
     (case rate_limit_middleware st now user_ip of
        (res, st1) \<Rightarrow> (case serve st1 reqs of (out, st2) \<Rightarrow> (res # out, st2)))"

text \<open>The raw record of a client's counter, whether or not it is still live, and its expiry.\<close>

definition counter_record :: "state \<Rightarrow> string \<Rightarrow> entry option" where
  "counter_record st user_ip =
     (case redis_client st of
        None \<Rightarrow> None
      | Some r \<Rightarrow> r (REDIS_RATE_LIMIT_KEY user_ip))"

definition window_expiry :: "state \<Rightarrow> string \<Rightarrow> nat option" where
  "window_expiry st user_ip =
     (case counter_record st user_ip of None \<Rightarrow> None | Some e \<Rightarrow> expires_at e)"

text \<open>A state with an empty store that can be reached, an empty table and nothing queued.\<close>

definition fresh :: state where
  "fresh = \<lparr>redis_client = Some Map.empty, server_up = True, users = Map.empty,
            db_alive = True, tasks = [], effects = []\<rparr>"

text \<open>A state in which the refresh token \<^verbatim>\<open>old\<close> is held and valid.\<close>

definition held :: state where
  "held = fresh\<lparr>redis_client :=
     Some [REDIS_REFRESH_KEY ''old'' \<mapsto> \<lparr>val = ''valid'', expires_at = Some 1000\<rparr>]\<rparr>"

text \<open>A state whose \<open>users\<close> table has the one row of \<^verbatim>\<open>a@example.com\<close>.\<close>

definition enrolled :: state where
  "enrolled = fresh\<lparr>users := [''a@example.com'' \<mapsto> ''hash'']\<rparr>"

text \<open>A state whose client is \<open>None\<close>.\<close>

definition offline :: state where
  "offline = fresh\<lparr>redis_client := None\<rparr>"

text \<open>A state whose client is present while the server cannot be reached.\<close>

definition unreachable :: state where
  "unreachable = fresh\<lparr>server_up := False\<rparr>"

text \<open>A stand-in for \<^verbatim>\<open>pwd_context.hash\<close> in examples.\<close>

definition hash_stub :: "string \<Rightarrow> string" where
  "hash_stub p = ''$'' @ p"

text \<open>The state after \<^verbatim>\<open>a@example.com\<close> asked for a reset at time 0 and got the token \<^verbatim>\<open>tok\<close>.\<close>

definition issued :: state where
  "issued = snd (forgot_password enrolled 0 ''tok'' ''a@example.com'')"

text \<open>A state in which the counter of \<^verbatim>\<open>10.0.0.1\<close> stands at 101 until time 60.\<close>

definition saturated :: state where
  "saturated = fresh\<lparr>redis_client :=
     Some [REDIS_RATE_LIMIT_KEY ''10.0.0.1'' \<mapsto> \<lparr>val = ''101'', expires_at = Some 60\<rparr>]\<rparr>"

section \<open>Basic facts\<close>

lemma bind_res_Inl: "bind_res (Inl e, s) f = (Inl e, s)"
  by (simp add: bind_res_def)

lemma bind_res_Inr: "bind_res (Inr x, s) f = f x s"
  by (simp add: bind_res_def)

lemma refresh_key_inj: "(REDIS_REFRESH_KEY a = REDIS_REFRESH_KEY b) = (a = b)"
  by (simp add: REDIS_REFRESH_KEY_def)

lemma verify_key_inj: "(REDIS_VERIFY_KEY a = REDIS_VERIFY_KEY b) = (a = b)"
  by (simp add: REDIS_VERIFY_KEY_def)

lemma rate_limit_key_inj: "(REDIS_RATE_LIMIT_KEY a = REDIS_RATE_LIMIT_KEY b) = (a = b)"
  by (simp add: REDIS_RATE_LIMIT_KEY_def)

text \<open>A lookup that answers was sent through a client to a server that could be reached.\<close>

lemma redis_get_answered:
  "redis_get st now k = Inr v \<Longrightarrow> (\<exists>r. redis_client st = Some r) \<and> server_up st"
  by (cases "redis_client st") (auto simp: redis_get_def split: if_splits)

lemma lookup_answered:
  "get_email_verification_token st now V = Inr (Some email) \<Longrightarrow>
     (\<exists>r. redis_client st = Some r) \<and> server_up st"
  by (cases "redis_client st")
     (auto simp: get_email_verification_token_def redis_get_def split: if_splits)

section \<open>Reading back the decimal text\<close>

lemma digit_of_digit_char: "d < 10 \<Longrightarrow> digit_of (digit_char d) = Some d"
  by (simp add: digit_of_def digit_char_def Let_def)

lemma nat_of_digits_append:
  "nat_of_digits acc (xs @ ys) =
     (case nat_of_digits acc xs of None \<Rightarrow> None | Some a \<Rightarrow> nat_of_digits a ys)"
  by (induction xs arbitrary: acc) (auto split: option.splits)

lemma nat_of_digits_str_nat: "nat_of_digits 0 (str_nat n) = Some n"
proof (induction n rule: str_nat.induct)
  case (1 n)
  show ?case
  proof (cases "n < 10")
    case True
    then show ?thesis by (subst str_nat.simps) (simp add: digit_of_digit_char)
  next
    case False
    with 1 have "nat_of_digits 0 (str_nat (n div 10)) = Some (n div 10)" by simp
    with False show ?thesis
      by (subst str_nat.simps) (simp add: nat_of_digits_append digit_of_digit_char)
  qed
qed

lemma str_nat_not_Nil: "str_nat n \<noteq> []"
  by (subst str_nat.simps) simp

lemma nat_of_digits_digits:
  "nat_of_digits acc s = Some n \<Longrightarrow> \<forall>c\<in>set s. digit_of c \<noteq> None"
  by (induction s arbitrary: acc) (auto split: option.splits)

lemma str_nat_digits: "\<forall>c\<in>set (str_nat n). digit_of c \<noteq> None"
  by (rule nat_of_digits_digits [OF nat_of_digits_str_nat])

lemma digit_not_space: "digit_of c \<noteq> None \<Longrightarrow> \<not> is_space c"
  by (auto simp: digit_of_def is_space_def Let_def split: if_splits)

lemma digit_not_sign:
  "digit_of c \<noteq> None \<Longrightarrow> c \<noteq> CHR ''-'' \<and> c \<noteq> CHR ''+'' \<and> c \<noteq> CHR ''_''"
  by (auto simp: digit_of_def)

lemma dropWhile_none: "\<forall>c\<in>set s. \<not> P c \<Longrightarrow> dropWhile P s = s"
  by (cases s) simp_all

lemma py_strip_digits: "\<forall>c\<in>set s. digit_of c \<noteq> None \<Longrightarrow> py_strip s = s"
proof -
  assume d: "\<forall>c\<in>set s. digit_of c \<noteq> None"
  then have n: "\<forall>c\<in>set s. \<not> is_space c" by (simp add: digit_not_space)
  then have "\<forall>c\<in>set (rev s). \<not> is_space c" by simp
  then have "dropWhile is_space (rev s) = rev s" by (rule dropWhile_none)
  with dropWhile_none [OF n] show ?thesis by (simp add: py_strip_def)
qed

lemma digits_us_digits:
  "\<forall>c\<in>set s. digit_of c \<noteq> None \<Longrightarrow> digits_us acc s = nat_of_digits acc s"
proof (induction acc s rule: digits_us.induct)
  case (1 acc)
  then show ?case by simp
next
  case (2 acc c)
  then show ?case by (auto split: option.splits)
next
  case (3 acc c d cs)
  from 3(3) have c: "c \<noteq> CHR ''_''" and dc: "digit_of c \<noteq> None"
    and rest: "\<forall>x\<in>set (d # cs). digit_of x \<noteq> None"
    using digit_not_sign by auto
  from dc obtain v where v: "digit_of c = Some v" by auto
  from 3(2) [OF c v rest] c v show ?case by simp
qed

lemma py_unsigned_str_nat: "py_unsigned (str_nat n) = Some n"
proof (cases "str_nat n")
  case Nil
  then show ?thesis by (simp add: str_nat_not_Nil)
next
  case (Cons c cs)
  from str_nat_digits [of n] Cons have all: "\<forall>x\<in>set cs. digit_of x \<noteq> None"
    and "digit_of c \<noteq> None" by auto
  then obtain v where v: "digit_of c = Some v" by auto
  from nat_of_digits_str_nat [of n] Cons v have "nat_of_digits v cs = Some n" by simp
  with v Cons all show ?thesis by (simp add: py_unsigned_def digits_us_digits)
qed

text \<open>Both parsers read back what \<open>str_nat\<close> wrote.\<close>

lemma int_of_str_str_nat: "int_of_str (str_nat n) = Some (int n)"
proof (cases "str_nat n")
  case Nil
  then show ?thesis by (simp add: str_nat_not_Nil)
next
  case (Cons c cs)
  from str_nat_digits [of n] Cons have "digit_of c \<noteq> None" by auto
  then have s: "c \<noteq> CHR ''-''" "c \<noteq> CHR ''+''" using digit_not_sign by auto
  have p: "py_strip (str_nat n) = c # cs"
    using py_strip_digits [OF str_nat_digits, of n] Cons by simp
  have u: "py_unsigned (c # cs) = Some n"
    using py_unsigned_str_nat [of n] Cons by simp
  show ?thesis by (simp add: int_of_str_def p s u)
qed

lemma str_nat_0: "str_nat 0 = ''0''"
  by code_simp

lemma digit_of_0: "digit_of CHR ''0'' = Some 0"
  by (simp add: digit_of_def)

lemma str_nat_hd: "0 < n \<Longrightarrow> hd (str_nat n) \<noteq> CHR ''0''"
proof (induction n rule: str_nat.induct)
  case (1 n)
  show ?case
  proof (cases "n < 10")
    case True
    with 1(2) have "digit_of (digit_char n) \<noteq> digit_of CHR ''0''"
      by (simp add: digit_of_digit_char digit_of_0)
    then have "digit_char n \<noteq> CHR ''0''" by auto
    with True show ?thesis by (subst str_nat.simps) simp
  next
    case False
    then have "0 < n div 10" by simp
    with 1(1) False have "hd (str_nat (n div 10)) \<noteq> CHR ''0''" by simp
    with False show ?thesis by (subst str_nat.simps) (simp add: str_nat_not_Nil)
  qed
qed

lemma redis_integer_str_nat:
  assumes "int n \<le> 2 ^ 63 - 1"
  shows "redis_integer (str_nat n) = Some (int n)"
proof (cases "n = 0")
  case True
  then show ?thesis by (simp add: str_nat_0 redis_integer_def)
next
  case False
  obtain c cs where s: "str_nat n = c # cs"
    using str_nat_not_Nil [of n] by (cases "str_nat n") auto
  from str_nat_digits [of n] s have "digit_of c \<noteq> None" by auto
  then have m: "c \<noteq> CHR ''-''" using digit_not_sign by auto
  from False str_nat_hd [of n] s have z: "c \<noteq> CHR ''0''" by simp
  have d: "nat_of_digits 0 (c # cs) = Some n"
    using nat_of_digits_str_nat [of n] s by simp
  from assms show ?thesis
    unfolding redis_integer_def s using m z d by (simp del: nat_of_digits.simps)
qed

lemma str_int_int: "str_int (int n) = str_nat n"
  by (simp add: str_int_def)

lemma str_int_Suc: "str_int (int n + 1) = str_nat (Suc n)"
proof -
  have "int n + 1 = int (Suc n)" by simp
  then show ?thesis by (simp only: str_int_int)
qed

lemma str_int_1: "str_int 1 = str_nat 1"
  using str_int_int [of 1] by simp

lemma int_of_str_Nil: "int_of_str [] = None"
  by (simp add: int_of_str_def py_strip_def)

lemma redis_integer_Nil: "redis_integer [] = None"
  by (simp add: redis_integer_def)

text \<open>
  On text that \<^verbatim>\<open>INCR\<close> did not write the two parsers part: Python reads \<^verbatim>\<open>007\<close> and
  \<^verbatim>\<open>+101\<close> as numbers, the server takes neither for an integer.
\<close>

lemma parsers_disagree:
  "int_of_str ''007'' = Some 7 \<and> redis_integer ''007'' = None
   \<and> int_of_str ''+101'' = Some 101 \<and> redis_integer ''+101'' = None"
  by code_simp

section \<open>Refresh-token rotation\<close>

text \<open>
  With a client, a server that can be reached and a positive number of days, rotation
  never raises: it writes the new record, then deletes the old key.
\<close>

lemma rotate_refresh_token_result:
  assumes "redis_client st = Some r" and "server_up st" and "0 < days"
  shows "rotate_refresh_token days st now new_token old_token =
           (Inr new_token,
            st\<lparr>redis_client :=
                 Some ((r(REDIS_REFRESH_KEY new_token \<mapsto>
                          \<lparr>val = ''valid'', expires_at = Some (now + nat (days * 86400))\<rparr>))
                       (REDIS_REFRESH_KEY old_token := None)),
               effects := effects st @
                 [SETEX (REDIS_REFRESH_KEY new_token) (days * 86400) ''valid'',
                  DEL (REDIS_REFRESH_KEY old_token)]\<rparr>)"
  using assms
  by (simp add: rotate_refresh_token_def redis_setex_def redis_delete_def bind_res_def)

text \<open>
  C1. For a refresh token \<open>T\<close> whose record is in the store with the value \<^verbatim>\<open>valid\<close> at the
  time of the call, a positive configured lifetime and a generated token \<open>T'\<close> other than
  \<open>T\<close>, \<open>rotate_refresh_token\<close> returns \<open>T'\<close>; afterwards the store answers \<^verbatim>\<open>valid\<close>
  for \<open>T'\<close> at every instant of its lifetime and has no record of \<open>T\<close> at any instant,
  and the commands carried out are the write of the new record followed by the deletion
  of the old one.
\<close>

theorem rotate_refresh_token_rotates:
  assumes "redis_get st now (REDIS_REFRESH_KEY T) = Inr (Some ''valid'')"
    and "0 < days" and "T' \<noteq> T"
  shows "fst (rotate_refresh_token days st now T' T) = Inr T'
       \<and> (\<forall>t. now \<le> t \<and> t < now + nat (days * 86400) \<longrightarrow>
              redis_get (snd (rotate_refresh_token days st now T' T)) t (REDIS_REFRESH_KEY T') =
                Inr (Some ''valid''))
       \<and> (\<forall>t. redis_get (snd (rotate_refresh_token days st now T' T)) t (REDIS_REFRESH_KEY T) =
                Inr None)
       \<and> effects (snd (rotate_refresh_token days st now T' T)) =
           effects st @ [SETEX (REDIS_REFRESH_KEY T') (days * 86400) ''valid'',
                         DEL (REDIS_REFRESH_KEY T)]"
proof -
  from redis_get_answered [OF assms(1)] obtain r
    where r: "redis_client st = Some r" and up: "server_up st" by auto
  show ?thesis
    using assms(3) up
    by (simp add: rotate_refresh_token_result [OF r up assms(2)] redis_get_def
        live_def refresh_key_inj)
qed

theorem rotate_refresh_token_rotates_witness:
  "redis_get held 5 (REDIS_REFRESH_KEY ''old'') = Inr (Some ''valid'')
   \<and> fst (rotate_refresh_token 7 held 5 ''new'' ''old'') = Inr ''new''
   \<and> redis_get (snd (rotate_refresh_token 7 held 5 ''new'' ''old'')) 5 (REDIS_REFRESH_KEY ''new'')
       = Inr (Some ''valid'')
   \<and> redis_get (snd (rotate_refresh_token 7 held 5 ''new'' ''old'')) 5 (REDIS_REFRESH_KEY ''old'')
       = Inr None"
proof -
  have v: "redis_get held 5 (REDIS_REFRESH_KEY ''old'') = Inr (Some ''valid'')"
    by (simp add: redis_get_def held_def fresh_def live_def)
  have d: "(0::int) < 7" by simp
  have n: "''new'' \<noteq> ''old''" by simp
  from rotate_refresh_token_rotates [OF v d n] v show ?thesis by simp
qed

text \<open>
  C8. With a client, a server that can be reached and a positive configured lifetime,
  \<open>rotate_refresh_token\<close> returns the generated token for every old token, whether or not
  the store has a record of it: the record of the new token is written as valid with a
  lifetime of \<open>days * 86400\<close> seconds, and it is there afterwards when the generated token
  differs from the old one.
\<close>

theorem rotate_refresh_token_unknown:
  assumes "redis_client st = Some r" and "server_up st" and "0 < days"
  shows "fst (rotate_refresh_token days st now T' T) = Inr T'
       \<and> effects (snd (rotate_refresh_token days st now T' T)) =
           effects st @ [SETEX (REDIS_REFRESH_KEY T') (days * 86400) ''valid'',
                         DEL (REDIS_REFRESH_KEY T)]
       \<and> (T' \<noteq> T \<longrightarrow>
            (\<exists>r'. redis_client (snd (rotate_refresh_token days st now T' T)) = Some r'
               \<and> r' (REDIS_REFRESH_KEY T') =
                   Some \<lparr>val = ''valid'', expires_at = Some (now + nat (days * 86400))\<rparr>))"
  by (simp add: rotate_refresh_token_result [OF assms] refresh_key_inj)

theorem rotate_refresh_token_unknown_witness:
  "redis_client fresh = Some Map.empty \<and> server_up fresh
   \<and> fst (rotate_refresh_token 7 fresh 5 ''new'' ''never'') = Inr ''new''
   \<and> redis_get (snd (rotate_refresh_token 7 fresh 5 ''new'' ''never'')) 5 (REDIS_REFRESH_KEY ''new'')
       = Inr (Some ''valid'')"
proof -
  have c: "redis_client fresh = Some Map.empty" by (simp add: fresh_def)
  have u: "server_up fresh" by (simp add: fresh_def)
  have d: "(0::int) < 7" by simp
  have s: "server_up (snd (rotate_refresh_token 7 fresh 5 ''new'' ''never''))"
    by (simp add: rotate_refresh_token_result [OF c u d] u)
  from rotate_refresh_token_unknown [OF c u d, of 5 "''new''" "''never''"] c u s
  show ?thesis by (auto simp: redis_get_def live_def)
qed

section \<open>Password reset\<close>

text \<open>
  \<open>forgot_password\<close> answers with its message unless the command that stores the token is
  sent to a server that cannot be reached, which raises; neither depends on the email.
\<close>

lemma forgot_password_response:
  "fst (forgot_password st now tok email) =
     (if redis_client st \<noteq> None \<and> \<not> server_up st then Inl ConnectionError
      else Inr ''Password reset email sent.'')"
  by (cases "redis_client st")
     (simp_all add: forgot_password_def store_email_verification_token_def redis_setex_def
        send_email_background_def bind_res_def)

text \<open>
  C9. Two runs of \<open>forgot_password\<close> from the same state, one with the email of a row of
  \<open>users\<close> and one with an email that has no row, give the same response: the message
  "Password reset email sent.", or, when the client is there and the server cannot be
  reached, the same error in both runs.
\<close>

theorem forgot_password_same_response:
  assumes "users st e1 = Some h" and "users st e2 = None"
  shows "fst (forgot_password st now1 tok1 e1) = fst (forgot_password st now2 tok2 e2)
       \<and> fst (forgot_password st now1 tok1 e1) =
           (if redis_client st \<noteq> None \<and> \<not> server_up st then Inl ConnectionError
            else Inr ''Password reset email sent.'')"
  by (simp add: forgot_password_response)

theorem forgot_password_same_response_witness:
  "users enrolled ''a@example.com'' = Some ''hash''
   \<and> users enrolled ''b@example.com'' = None
   \<and> fst (forgot_password enrolled 0 ''t1'' ''a@example.com'')
       = fst (forgot_password enrolled 0 ''t2'' ''b@example.com'')
   \<and> fst (forgot_password enrolled 0 ''t1'' ''a@example.com'') = Inr ''Password reset email sent.''
   \<and> fst (forgot_password (enrolled\<lparr>server_up := False\<rparr>) 0 ''t1'' ''a@example.com'')
       = fst (forgot_password (enrolled\<lparr>server_up := False\<rparr>) 0 ''t2'' ''b@example.com'')
   \<and> fst (forgot_password (enrolled\<lparr>server_up := False\<rparr>) 0 ''t1'' ''a@example.com'')
       = Inl ConnectionError"
proof -
  have a: "users enrolled ''a@example.com'' = Some ''hash''"
    by (simp add: enrolled_def fresh_def)
  have b: "users enrolled ''b@example.com'' = None"
    by (simp add: enrolled_def fresh_def)
  have u: "server_up enrolled" by (simp add: enrolled_def fresh_def)
  note t = forgot_password_same_response [OF a b, of 0 "''t1''" 0 "''t2''"]
  from t have e: "fst (forgot_password enrolled 0 ''t1'' ''a@example.com'')
       = fst (forgot_password enrolled 0 ''t2'' ''b@example.com'')"
    by (rule conjunct1)
  from t [THEN conjunct2] u
  have m: "fst (forgot_password enrolled 0 ''t1'' ''a@example.com'') = Inr ''Password reset email sent.''"
    by simp
  have a': "users (enrolled\<lparr>server_up := False\<rparr>) ''a@example.com'' = Some ''hash''"
    by (simp add: enrolled_def fresh_def)
  have b': "users (enrolled\<lparr>server_up := False\<rparr>) ''b@example.com'' = None"
    by (simp add: enrolled_def fresh_def)
  have c': "redis_client (enrolled\<lparr>server_up := False\<rparr>) \<noteq> None"
    by (simp add: enrolled_def fresh_def)
  note t' = forgot_password_same_response [OF a' b', of 0 "''t1''" 0 "''t2''"]
  from t' have e': "fst (forgot_password (enrolled\<lparr>server_up := False\<rparr>) 0 ''t1'' ''a@example.com'')
       = fst (forgot_password (enrolled\<lparr>server_up := False\<rparr>) 0 ''t2'' ''b@example.com'')"
    by (rule conjunct1)
  from t' [THEN conjunct2] c'
  have m': "fst (forgot_password (enrolled\<lparr>server_up := False\<rparr>) 0 ''t1'' ''a@example.com'')
       = Inl ConnectionError"
    by simp
  from a b e m e' m' show ?thesis by blast
qed

lemma issued_eq:
  "issued = enrolled\<lparr>redis_client :=
       Some [REDIS_VERIFY_KEY ''tok'' \<mapsto> \<lparr>val = ''a@example.com'', expires_at = Some 86400\<rparr>],
     tasks := [(''a@example.com'', ''Password Reset'',
       ''Click here to reset your password: https://yourdomain.com/reset-password?token=tok'')],
     effects := [SETEX (REDIS_VERIFY_KEY ''tok'') 86400 ''a@example.com'',
       ADD_TASK ''a@example.com'' ''Password Reset''
       ''Click here to reset your password: https://yourdomain.com/reset-password?token=tok'']\<rparr>"
  by (simp add: issued_def forgot_password_def store_email_verification_token_def
      redis_setex_def send_email_background_def bind_res_def enrolled_def fresh_def)

lemma issued_lookup:
  "get_email_verification_token (issued\<lparr>db_alive := b\<rparr>) 5 ''tok'' = Inr (Some ''a@example.com'')"
  by (simp add: issued_eq get_email_verification_token_def redis_get_def live_def
      enrolled_def fresh_def)

lemma issued_alive: "db_alive issued"
  by (simp add: issued_eq enrolled_def fresh_def)

text \<open>The successful path of \<open>reset_password\<close>: the row is rewritten, then the key deleted.\<close>

lemma reset_password_success:
  assumes "redis_client st = Some r" and "server_up st"
    and "get_email_verification_token st now V = Inr (Some email)"
    and "email \<noteq> []" and "db_alive st"
  shows "reset_password pwd_hash st now V new_password =
           (Inr ''Password reset successful.'',
            st\<lparr>users := (if users st email = None then users st
                         else (users st)(email \<mapsto> pwd_hash new_password)),
               redis_client := Some (r(REDIS_VERIFY_KEY V := None)),
               effects := effects st @
                 [UPDATE_COMMIT (pwd_hash new_password) email, DEL (REDIS_VERIFY_KEY V)]\<rparr>)"
  using assms
  by (simp add: reset_password_def update_password_def redis_delete_def bind_res_def)

lemma reset_password_absent:
  assumes "redis_client st = Some r" and "server_up st" and "r (REDIS_VERIFY_KEY V) = None"
  shows "reset_password pwd_hash st now V new_password =
           (Inl (HTTPException 400 ''Invalid or expired token.''), st)"
  using assms
  by (simp add: reset_password_def get_email_verification_token_def redis_get_def live_def)

text \<open>
  C2. When the lookup of a verification token \<open>V\<close> gives the non-empty email bound to it
  (the token was issued and has not expired) and the database answers, \<open>reset_password\<close>
  succeeds, rewrites the password of that email and of no other, and deletes the record;
  in the state it leaves, every further \<open>reset_password\<close> with \<open>V\<close>, at any time and
  with any password, raises HTTP 400 "Invalid or expired token." and changes nothing, so
  that all later attempts fail in the same way.
\<close>

theorem reset_password_single_use:
  assumes "get_email_verification_token st now V = Inr (Some email)"
    and "email \<noteq> []" and "db_alive st"
  shows "fst (reset_password pwd_hash st now V new_password) = Inr ''Password reset successful.''
       \<and> users (snd (reset_password pwd_hash st now V new_password)) =
           (if users st email = None then users st
            else (users st)(email \<mapsto> pwd_hash new_password))
       \<and> effects (snd (reset_password pwd_hash st now V new_password)) =
           effects st @ [UPDATE_COMMIT (pwd_hash new_password) email, DEL (REDIS_VERIFY_KEY V)]
       \<and> (\<forall>t h p. reset_password h (snd (reset_password pwd_hash st now V new_password)) t V p =
             (Inl (HTTPException 400 ''Invalid or expired token.''),
              snd (reset_password pwd_hash st now V new_password)))"
proof -
  from lookup_answered [OF assms(1)] obtain r
    where r: "redis_client st = Some r" and up: "server_up st" by auto
  note ok = reset_password_success [OF r up assms]
  have "\<And>t h p. reset_password h (snd (reset_password pwd_hash st now V new_password)) t V p =
             (Inl (HTTPException 400 ''Invalid or expired token.''),
              snd (reset_password pwd_hash st now V new_password))"
    by (rule reset_password_absent [where r = "r(REDIS_VERIFY_KEY V := None)"])
       (simp_all add: ok up)
  then show ?thesis by (simp add: ok)
qed

theorem reset_password_single_use_witness:
  "get_email_verification_token issued 5 ''tok'' = Inr (Some ''a@example.com'')
   \<and> ''a@example.com'' \<noteq> [] \<and> db_alive issued
   \<and> fst (reset_password hash_stub issued 5 ''tok'' ''pw'') = Inr ''Password reset successful.''
   \<and> users (snd (reset_password hash_stub issued 5 ''tok'' ''pw'')) ''a@example.com'' = Some ''$pw''
   \<and> fst (reset_password hash_stub (snd (reset_password hash_stub issued 5 ''tok'' ''pw''))
             6 ''tok'' ''pw2'')
       = Inl (HTTPException 400 ''Invalid or expired token.'')"
proof -
  have g: "get_email_verification_token issued 5 ''tok'' = Inr (Some ''a@example.com'')"
    by (simp add: issued_eq get_email_verification_token_def redis_get_def live_def
        enrolled_def fresh_def)
  have e: "''a@example.com'' \<noteq> []" by simp
  have u: "users issued ''a@example.com'' = Some ''hash''"
    by (simp add: issued_eq enrolled_def fresh_def)
  from reset_password_single_use [OF g e issued_alive, of hash_stub "''pw''"] g issued_alive u
  show ?thesis by (simp add: hash_stub_def)
qed

text \<open>
  C10. When the lookup gives no identity (\<open>None\<close>, or the empty string, which Python's
  \<^verbatim>\<open>not email\<close> treats alike), \<open>reset_password\<close> raises HTTP 400 and the whole state is as
  before: no row written, no key deleted. When the lookup gives an identity and the
  database does not answer, the handler raises with the state unchanged, so that the same
  call succeeds once the database answers. When it answers, the commands carried out are
  the committed update followed by the deletion of the token's key.
\<close>

theorem reset_password_frame:
  "(get_email_verification_token st now token \<in> {Inr None, Inr (Some [])} \<longrightarrow>
      reset_password pwd_hash st now token new_password =
        (Inl (HTTPException 400 ''Invalid or expired token.''), st))
   \<and> (get_email_verification_token st now token = Inr (Some email) \<and> email \<noteq> []
        \<and> \<not> db_alive st \<longrightarrow>
        reset_password pwd_hash st now token new_password = (Inl DatabaseError, st)
        \<and> fst (reset_password pwd_hash (st\<lparr>db_alive := True\<rparr>) now token new_password) =
            Inr ''Password reset successful.'')
   \<and> (get_email_verification_token st now token = Inr (Some email) \<and> email \<noteq> []
        \<and> db_alive st \<longrightarrow>
        effects (snd (reset_password pwd_hash st now token new_password)) =
          effects st @ [UPDATE_COMMIT (pwd_hash new_password) email,
                        DEL (REDIS_VERIFY_KEY token)])"
proof (intro conjI impI)
  assume "get_email_verification_token st now token \<in> {Inr None, Inr (Some [])}"
  then show "reset_password pwd_hash st now token new_password =
        (Inl (HTTPException 400 ''Invalid or expired token.''), st)"
    by (auto simp: reset_password_def)
next
  assume a: "get_email_verification_token st now token = Inr (Some email) \<and> email \<noteq> []
    \<and> \<not> db_alive st"
  then show "reset_password pwd_hash st now token new_password = (Inl DatabaseError, st)"
    by (simp add: reset_password_def update_password_def bind_res_def)
  from a lookup_answered [of st now token email] obtain r
    where r: "redis_client st = Some r" and up: "server_up st" by auto
  from a r up
  have g: "get_email_verification_token (st\<lparr>db_alive := True\<rparr>) now token = Inr (Some email)"
    by (simp add: get_email_verification_token_def redis_get_def)
  from a r up g
  show "fst (reset_password pwd_hash (st\<lparr>db_alive := True\<rparr>) now token new_password) =
            Inr ''Password reset successful.''"
    by (simp add: reset_password_success [where r = r and email = email])
next
  assume a: "get_email_verification_token st now token = Inr (Some email) \<and> email \<noteq> []
    \<and> db_alive st"
  with lookup_answered [of st now token email] obtain r
    where r: "redis_client st = Some r" and up: "server_up st" by auto
  from a r up show "effects (snd (reset_password pwd_hash st now token new_password)) =
          effects st @ [UPDATE_COMMIT (pwd_hash new_password) email,
                        DEL (REDIS_VERIFY_KEY token)]"
    by (simp add: reset_password_success [where r = r and email = email])
qed

theorem reset_password_frame_witness:
  "get_email_verification_token fresh 5 ''tok'' \<in> {Inr None, Inr (Some [])}
   \<and> reset_password hash_stub fresh 5 ''tok'' ''pw'' =
        (Inl (HTTPException 400 ''Invalid or expired token.''), fresh)
   \<and> get_email_verification_token (issued\<lparr>db_alive := False\<rparr>) 5 ''tok'' =
        Inr (Some ''a@example.com'')
   \<and> reset_password hash_stub (issued\<lparr>db_alive := False\<rparr>) 5 ''tok'' ''pw'' =
        (Inl DatabaseError, issued\<lparr>db_alive := False\<rparr>)
   \<and> get_email_verification_token issued 5 ''tok'' = Inr (Some ''a@example.com'')
   \<and> effects (snd (reset_password hash_stub issued 5 ''tok'' ''pw'')) =
        effects issued @ [UPDATE_COMMIT ''$pw'' ''a@example.com'', DEL (REDIS_VERIFY_KEY ''tok'')]"
proof -
  have n: "get_email_verification_token fresh 5 ''tok'' \<in> {Inr None, Inr (Some [])}"
    by (simp add: get_email_verification_token_def redis_get_def live_def fresh_def)
  have g: "get_email_verification_token issued 5 ''tok'' = Inr (Some ''a@example.com'')"
    by (simp add: issued_eq get_email_verification_token_def redis_get_def live_def
        enrolled_def fresh_def)
  note f = issued_lookup [of False]
  have s1: "reset_password hash_stub fresh 5 ''tok'' ''pw'' =
        (Inl (HTTPException 400 ''Invalid or expired token.''), fresh)"
    using reset_password_frame [where st = fresh and now = 5 and token = "''tok''"
         and email = "''x''" and pwd_hash = hash_stub and new_password = "''pw''"] n
    by blast
  have s2: "reset_password hash_stub (issued\<lparr>db_alive := False\<rparr>) 5 ''tok'' ''pw'' =
        (Inl DatabaseError, issued\<lparr>db_alive := False\<rparr>)"
    using reset_password_frame [where st = "issued\<lparr>db_alive := False\<rparr>" and now = 5
         and token = "''tok''" and email = "''a@example.com''" and pwd_hash = hash_stub
         and new_password = "''pw''"] f
    by simp
  have s3: "effects (snd (reset_password hash_stub issued 5 ''tok'' ''pw'')) =
        effects issued @ [UPDATE_COMMIT ''$pw'' ''a@example.com'', DEL (REDIS_VERIFY_KEY ''tok'')]"
    using reset_password_frame [where st = issued and now = 5 and token = "''tok''"
         and email = "''a@example.com''" and pwd_hash = hash_stub and new_password = "''pw''"]
      g issued_alive
    by (simp add: hash_stub_def)
  from n s1 f s2 g s3 show ?thesis by blast
qed

section \<open>A store that is not available\<close>

text \<open>
  The store is not available to a handler in two ways. The client is \<open>None\<close>: this is the
  case the source tests for with \<^verbatim>\<open>if redis_client\<close>. Then the rate limiter admits every
  request and leaves the state as it is, and \<open>reset_password\<close> with any token raises
  HTTP 400 "Invalid or expired token." and leaves the state as it is.
\<close>

lemma client_absent:
  assumes "redis_client st = None"
  shows "rate_limit_middleware st now user_ip = (Inr (), st)
       \<and> reset_password pwd_hash st now token new_password =
           (Inl (HTTPException 400 ''Invalid or expired token.''), st)"
  using assms
  by (simp add: rate_limit_middleware_def reset_password_def get_email_verification_token_def)

text \<open>
  Or the client is there and the server cannot be reached. Then the first command of
  either handler raises \<^verbatim>\<open>ConnectionError\<close>, which no handler catches: the rate limiter
  does not admit the request, and \<open>reset_password\<close> fails.
\<close>

lemma server_unreachable:
  assumes "redis_client st = Some r" and "\<not> server_up st"
  shows "rate_limit_middleware st now user_ip = (Inl ConnectionError, st)
       \<and> reset_password pwd_hash st now token new_password = (Inl ConnectionError, st)"
  using assms
  by (simp add: rate_limit_middleware_def reset_password_def get_email_verification_token_def
      redis_get_def)

text \<open>
  C7. At the state \<open>unreachable\<close>, where the client is present and the server cannot be
  reached, the rate limiter raises \<^verbatim>\<open>ConnectionError\<close> instead of admitting the request;
  \<open>reset_password\<close> raises it too, so it does fail. At the state \<open>offline\<close>, where the
  client is \<open>None\<close>, the rate limiter admits the request and \<open>reset_password\<close> raises
  HTTP 400.
\<close>

theorem rate_limit_unreachable_raises:
  "redis_client unreachable = Some Map.empty
   \<and> rate_limit_middleware unreachable 0 ''10.0.0.1'' = (Inl ConnectionError, unreachable)
   \<and> reset_password hash_stub unreachable 0 ''tok'' ''pw'' = (Inl ConnectionError, unreachable)
   \<and> redis_client offline = None
   \<and> rate_limit_middleware offline 0 ''10.0.0.1'' = (Inr (), offline)
   \<and> reset_password hash_stub offline 0 ''tok'' ''pw'' =
       (Inl (HTTPException 400 ''Invalid or expired token.''), offline)"
proof -
  have c: "redis_client unreachable = Some Map.empty" by (simp add: unreachable_def fresh_def)
  have d: "\<not> server_up unreachable" by (simp add: unreachable_def fresh_def)
  have n: "redis_client offline = None" by (simp add: offline_def)
  from server_unreachable [OF c d] client_absent [OF n] c n show ?thesis by simp
qed

section \<open>Revocation\<close>

text \<open>
  \<open>revoke_token\<close> asks for a time to live of 0, which the server refuses: with a client
  and a server that can be reached, every call raises and writes nothing.
\<close>

lemma revoke_token_raises:
  assumes "redis_client st = Some r" and "server_up st"
  shows "revoke_token st now token = (Inl (ResponseError ''invalid expire time in setex''), st)"
  using assms by (simp add: revoke_token_def redis_setex_def bind_res_def)

text \<open>
  C5. At the state \<open>held\<close>, where the record of the token \<^verbatim>\<open>old\<close> is \<^verbatim>\<open>valid\<close>,
  \<open>revoke_token\<close> raises instead of returning its message, the state is unchanged, and the
  store still answers \<^verbatim>\<open>valid\<close> for the token; on a token that was never issued it raises
  as well.
\<close>

theorem revoke_token_leaves_valid:
  "revoke_token held 5 ''old'' = (Inl (ResponseError ''invalid expire time in setex''), held)
   \<and> redis_get (snd (revoke_token held 5 ''old'')) 5 (REDIS_REFRESH_KEY ''old'')
       = Inr (Some ''valid'')
   \<and> revoke_token fresh 5 ''never'' = (Inl (ResponseError ''invalid expire time in setex''), fresh)"
proof -
  have h: "redis_client held =
      Some [REDIS_REFRESH_KEY ''old'' \<mapsto> \<lparr>val = ''valid'', expires_at = Some 1000\<rparr>]"
    by (simp add: held_def fresh_def)
  have hu: "server_up held" by (simp add: held_def fresh_def)
  have f: "redis_client fresh = Some Map.empty" by (simp add: fresh_def)
  have fu: "server_up fresh" by (simp add: fresh_def)
  show ?thesis
    by (simp add: revoke_token_raises [OF h hu] revoke_token_raises [OF f fu] redis_get_def
        h hu live_def)
qed

section \<open>Rate limiting\<close>

subsection \<open>One request\<close>

text \<open>No command changes whether the server can be reached.\<close>

lemma redis_incr_server_up: "server_up (snd (redis_incr st now k)) = server_up st"
  by (simp add: redis_incr_def split: option.splits)

lemma redis_expire_server_up: "server_up (snd (redis_expire st now k secs)) = server_up st"
  by (simp add: redis_expire_def split: option.splits)

lemma rate_limit_server_up:
  "server_up (snd (rate_limit_middleware st now user_ip)) = server_up st"
proof -
  have b: "server_up (snd (bind_res (redis_incr st now (REDIS_RATE_LIMIT_KEY user_ip)) (\<lambda>_ st1.
             bind_res (redis_expire st1 now (REDIS_RATE_LIMIT_KEY user_ip) 60) (\<lambda>_ st2.
             (Inr (), st2))))) = server_up st"
  proof (cases "redis_incr st now (REDIS_RATE_LIMIT_KEY user_ip)")
    case (Pair res st1)
    with redis_incr_server_up [of st now "REDIS_RATE_LIMIT_KEY user_ip"]
    have u1: "server_up st1 = server_up st" by simp
    show ?thesis
    proof (cases res)
      case (Inl e)
      with Pair u1 show ?thesis by (simp add: bind_res_def)
    next
      case (Inr n)
      obtain res2 st2 where e: "redis_expire st1 now (REDIS_RATE_LIMIT_KEY user_ip) 60 = (res2, st2)"
        by (cases "redis_expire st1 now (REDIS_RATE_LIMIT_KEY user_ip) 60")
      with redis_expire_server_up [of st1 now "REDIS_RATE_LIMIT_KEY user_ip" 60]
      have u2: "server_up st2 = server_up st1" by simp
      from Pair Inr e u1 u2 show ?thesis by (cases res2) (simp_all add: bind_res_def)
    qed
  qed
  show ?thesis
    unfolding rate_limit_middleware_def
    using b by (simp split: sum.splits option.splits bool.splits)
qed

text \<open>
  A request that finds no live counter is admitted and leaves the counter at 1; one that
  finds a live counter of at most 100 is admitted and leaves it one higher; one that finds
  a live counter above 100 is rejected with HTTP 429 and changes nothing. An admitted
  request leaves the counter expiring 60 seconds after itself.
\<close>

lemma rate_limit_fresh:
  assumes "redis_client st = Some r" and "server_up st"
    and "live r now (REDIS_RATE_LIMIT_KEY user_ip) = None"
  shows "fst (rate_limit_middleware st now user_ip) = Inr ()"
    and "counter_record (snd (rate_limit_middleware st now user_ip)) user_ip =
           Some \<lparr>val = str_nat 1, expires_at = Some (now + 60)\<rparr>"
  using assms
  by (simp_all add: rate_limit_middleware_def redis_get_def redis_incr_def redis_expire_def
      bind_res_def live_def counter_record_def str_int_1)

lemma rate_limit_count:
  assumes "counter_record st user_ip = Some \<lparr>val = str_nat n, expires_at = Some x\<rparr>"
    and "server_up st" and "now < x" and "n \<le> 100"
  shows "fst (rate_limit_middleware st now user_ip) = Inr ()"
    and "counter_record (snd (rate_limit_middleware st now user_ip)) user_ip =
           Some \<lparr>val = str_nat (Suc n), expires_at = Some (now + 60)\<rparr>"
proof -
  from assms(1) obtain r where r: "redis_client st = Some r"
    and k: "r (REDIS_RATE_LIMIT_KEY user_ip) = Some \<lparr>val = str_nat n, expires_at = Some x\<rparr>"
    by (auto simp: counter_record_def split: option.splits)
  have b: "\<not> 2 ^ 63 - 1 < int n + 1"
    using assms(4) by simp
  have p: "redis_integer (str_nat n) = Some (int n)"
    by (rule redis_integer_str_nat) (use assms(4) in simp)
  show "fst (rate_limit_middleware st now user_ip) = Inr ()"
    using r k b assms(2,3,4)
    by (simp add: rate_limit_middleware_def redis_get_def redis_incr_def redis_expire_def
        bind_res_def int_of_str_str_nat p str_nat_not_Nil live_def)
  show "counter_record (snd (rate_limit_middleware st now user_ip)) user_ip =
           Some \<lparr>val = str_nat (Suc n), expires_at = Some (now + 60)\<rparr>"
    using r k b assms(2,3,4)
    by (simp add: rate_limit_middleware_def redis_get_def redis_incr_def redis_expire_def
        bind_res_def int_of_str_str_nat p str_nat_not_Nil live_def counter_record_def str_int_Suc)
qed

lemma rate_limit_over:
  assumes "counter_record st user_ip = Some \<lparr>val = str_nat n, expires_at = Some x\<rparr>"
    and "server_up st" and "now < x" and "100 < n"
  shows "rate_limit_middleware st now user_ip =
           (Inl (HTTPException 429 ''Too many requests. Try again later.''), st)"
proof -
  from assms(1) obtain r where r: "redis_client st = Some r"
    and k: "r (REDIS_RATE_LIMIT_KEY user_ip) = Some \<lparr>val = str_nat n, expires_at = Some x\<rparr>"
    by (auto simp: counter_record_def split: option.splits)
  have l: "live r now (REDIS_RATE_LIMIT_KEY user_ip) = Some \<lparr>val = str_nat n, expires_at = Some x\<rparr>"
    using k assms(3) by (simp add: live_def)
  show ?thesis
    using r l assms(2,4)
    by (simp add: rate_limit_middleware_def redis_get_def int_of_str_str_nat str_nat_not_Nil)
qed

subsection \<open>Requests in sequence\<close>

lemma serve_Cons:
  "serve st ((now, user_ip) # reqs) =
     (fst (rate_limit_middleware st now user_ip)
        # fst (serve (snd (rate_limit_middleware st now user_ip)) reqs),
      snd (serve (snd (rate_limit_middleware st now user_ip)) reqs))"
  by (simp add: split_beta)

lemma serve_append:
  "serve st (xs @ ys) =
     (fst (serve st xs) @ fst (serve (snd (serve st xs)) ys),
      snd (serve (snd (serve st xs)) ys))"
proof (induction xs arbitrary: st)
  case Nil
  then show ?case by simp
next
  case (Cons q xs)
  obtain t ip where q: "q = (t, ip)" by (cases q)
  show ?case
    unfolding q append_Cons serve_Cons Cons.IH by simp
qed

lemma serve_server_up: "server_up (snd (serve st reqs)) = server_up st"
proof (induction reqs arbitrary: st)
  case Nil
  then show ?case by simp
next
  case (Cons q reqs)
  obtain t ip where q: "q = (t, ip)" by (cases q)
  show ?case
    unfolding q serve_Cons by (simp add: Cons.IH rate_limit_server_up del: serve.simps)
qed

text \<open>
  Within a window of 60 seconds that starts at \<open>t0\<close>, requests are admitted as long as the
  counter they find is at most 100, so from a fresh window the first 101 are admitted.
\<close>

lemma serve_within_window:
  assumes "counter_record st user_ip = Some \<lparr>val = str_nat n, expires_at = Some x\<rparr>"
    and "server_up st"
    and "t0 + 60 \<le> x"
    and "\<forall>t\<in>set ts. t0 \<le> t \<and> t < t0 + 60"
    and "n + length ts \<le> 101"
  shows "fst (serve st (map (\<lambda>t. (t, user_ip)) ts)) = replicate (length ts) (Inr ())
       \<and> counter_record (snd (serve st (map (\<lambda>t. (t, user_ip)) ts))) user_ip =
           Some \<lparr>val = str_nat (n + length ts),
                 expires_at = Some (if ts = [] then x else last ts + 60)\<rparr>"
  using assms
proof (induction ts arbitrary: st n x)
  case Nil
  then show ?case by simp
next
  case (Cons t ts)
  let ?st1 = "snd (rate_limit_middleware st t user_ip)"
  from Cons.prems have tx: "t < x" and n: "n \<le> 100" and t0: "t0 + 60 \<le> t + 60"
    by auto
  note step = rate_limit_count [OF Cons.prems(1,2) tx n]
  have up: "server_up ?st1" using Cons.prems(2) by (simp add: rate_limit_server_up)
  from Cons.prems have rest: "\<forall>t\<in>set ts. t0 \<le> t \<and> t < t0 + 60"
    and len: "Suc n + length ts \<le> 101"
    by auto
  note ih = Cons.IH [OF step(2) up t0 rest len]
  show ?case
    using ih step(1) by (simp add: serve_Cons del: serve.simps)
qed

lemma serve_fresh_window:
  assumes "redis_client st = Some r" and "server_up st"
    and "live r t0 (REDIS_RATE_LIMIT_KEY user_ip) = None"
    and "\<forall>t\<in>set ts. t0 \<le> t \<and> t < t0 + 60"
    and "length ts \<le> 100"
  shows "fst (serve st (map (\<lambda>t. (t, user_ip)) (t0 # ts))) = replicate (Suc (length ts)) (Inr ())
       \<and> counter_record (snd (serve st (map (\<lambda>t. (t, user_ip)) (t0 # ts)))) user_ip =
           Some \<lparr>val = str_nat (Suc (length ts)),
                 expires_at = Some (last (t0 # ts) + 60)\<rparr>"
proof -
  note first = rate_limit_fresh [OF assms(1,2,3)]
  have up: "server_up (snd (rate_limit_middleware st t0 user_ip))"
    using assms(2) by (simp add: rate_limit_server_up)
  have len: "1 + length ts \<le> 101" using assms(5) by simp
  have le: "t0 + 60 \<le> t0 + 60" by simp
  note rest = serve_within_window [OF first(2) up le assms(4) len]
  show ?thesis
    using rest first(1) by (simp add: serve_Cons del: serve.simps)
qed

lemma str_nat_101: "str_nat 101 = ''101''"
  by code_simp

lemma fresh_client: "redis_client fresh = Some Map.empty"
  by (simp add: fresh_def)

lemma fresh_up: "server_up fresh"
  by (simp add: fresh_def)

lemma replicate_101: "replicate 101 q = map (\<lambda>t. (t, snd q)) (fst q # replicate 100 (fst q))"
proof -
  have "(101::nat) = Suc 100" by simp
  then show ?thesis by (simp only: replicate_Suc map_replicate list.map prod.collapse)
qed

lemma serve_101:
  "fst (serve fresh (replicate 101 (0, user_ip))) = replicate 101 (Inr ())"
  "counter_record (snd (serve fresh (replicate 101 (0, user_ip)))) user_ip =
     Some \<lparr>val = ''101'', expires_at = Some 60\<rparr>"
proof -
  have l: "live Map.empty 0 (REDIS_RATE_LIMIT_KEY user_ip) = None" by (simp add: live_def)
  have w: "\<forall>t\<in>set (replicate 100 (0::nat)). 0 \<le> t \<and> t < 0 + 60" by simp
  have n: "length (replicate 100 (0::nat)) \<le> 100" by simp
  note a = serve_fresh_window [OF fresh_client fresh_up l w n]
  have r: "replicate 101 (0::nat, user_ip) = map (\<lambda>t. (t, user_ip)) (0 # replicate 100 0)"
    using replicate_101 [of "(0, user_ip)"] by simp
  have s: "Suc (length (replicate 100 (0::nat))) = 101" by simp
  from a show "fst (serve fresh (replicate 101 (0, user_ip))) = replicate 101 (Inr ())"
    unfolding r s by blast
  from a show "counter_record (snd (serve fresh (replicate 101 (0, user_ip)))) user_ip =
     Some \<lparr>val = ''101'', expires_at = Some 60\<rparr>"
    unfolding r s by (simp add: str_nat_101)
qed

text \<open>
  C3. From the empty store, 102 requests of one client at the same instant: the first 101
  are admitted and the 102nd is the first to be rejected with HTTP 429. The 101st request,
  the one after a quota of 100, is admitted.
\<close>

theorem rate_limit_admits_101st:
  "fst (serve fresh (replicate 102 (0, ''10.0.0.1''))) =
     replicate 101 (Inr ()) @ [Inl (HTTPException 429 ''Too many requests. Try again later.'')]"
proof -
  let ?q = "(0::nat, ''10.0.0.1'')"
  let ?st = "snd (serve fresh (replicate 101 ?q))"
  have c: "counter_record ?st ''10.0.0.1'' = Some \<lparr>val = str_nat 101, expires_at = Some 60\<rparr>"
    by (simp add: serve_101(2) str_nat_101)
  have up: "server_up ?st" by (simp add: serve_server_up fresh_up)
  have over: "rate_limit_middleware ?st 0 ''10.0.0.1'' =
      (Inl (HTTPException 429 ''Too many requests. Try again later.''), ?st)"
    by (rule rate_limit_over [OF c up]) simp_all
  have "(102::nat) = Suc 101" by simp
  then have r: "replicate 102 ?q = replicate 101 ?q @ [?q]"
    by (simp only: replicate_Suc replicate_append_same)
  show ?thesis
    unfolding r serve_append by (simp add: serve_101(1) over)
qed

text \<open>
  C4. From the empty store, after 101 requests of one client at the same instant the stored
  counter reads 101, above 100, and the request that wrote it, the last one, was admitted.
\<close>

theorem counter_exceeds_quota_admitted:
  "last (fst (serve fresh (replicate 101 (0, ''10.0.0.1'')))) = Inr ()
   \<and> redis_get (snd (serve fresh (replicate 101 (0, ''10.0.0.1'')))) 0
        (REDIS_RATE_LIMIT_KEY ''10.0.0.1'') = Inr (Some ''101'')
   \<and> int_of_str ''101'' = Some 101"
proof -
  let ?st = "snd (serve fresh (replicate 101 (0, ''10.0.0.1'')))"
  have c: "counter_record ?st ''10.0.0.1'' = Some \<lparr>val = ''101'', expires_at = Some 60\<rparr>"
    by (rule serve_101(2))
  then obtain r where r: "redis_client ?st = Some r"
    and k: "r (REDIS_RATE_LIMIT_KEY ''10.0.0.1'') = Some \<lparr>val = ''101'', expires_at = Some 60\<rparr>"
    by (auto simp: counter_record_def split: option.splits)
  have up: "server_up ?st" by (simp add: serve_server_up fresh_up)
  have g: "redis_get ?st 0 (REDIS_RATE_LIMIT_KEY ''10.0.0.1'') = Inr (Some ''101'')"
    using r k up by (simp add: redis_get_def live_def)
  have p: "int_of_str ''101'' = Some 101"
    using int_of_str_str_nat [of 101] by (simp add: str_nat_101)
  have l: "last (fst (serve fresh (replicate 101 (0, ''10.0.0.1'')))) = Inr ()"
    by (simp add: serve_101(1))
  from l g p show ?thesis by blast
qed

text \<open>
  C6, as stated, fails: of two requests of one client at times 0 and 30, both admitted, the
  first leaves the counter expiring at 60 and the second moves the expiry to 90.
\<close>

theorem window_expiry_extended:
  "fst (serve fresh [(0, ''10.0.0.1''), (30, ''10.0.0.1'')]) = [Inr (), Inr ()]
   \<and> window_expiry (snd (serve fresh [(0, ''10.0.0.1'')])) ''10.0.0.1'' = Some 60
   \<and> window_expiry (snd (serve fresh [(0, ''10.0.0.1''), (30, ''10.0.0.1'')])) ''10.0.0.1'' = Some 90"
proof -
  have l: "live Map.empty 0 (REDIS_RATE_LIMIT_KEY ''10.0.0.1'') = None" by (simp add: live_def)
  note a = serve_fresh_window [OF fresh_client fresh_up l, of "[]"]
  note b = serve_fresh_window [OF fresh_client fresh_up l, of "[30]"]
  from a b show ?thesis by (simp add: window_expiry_def del: serve.simps)
qed

lemma live_incr:
  "live r now k = Some e \<Longrightarrow> live (r(k \<mapsto> e\<lparr>val := v\<rparr>)) now k = Some (e\<lparr>val := v\<rparr>)"
  by (auto simp: live_def split: option.splits if_splits)

lemma live_fresh_incr:
  "live (r(k \<mapsto> \<lparr>val = v, expires_at = None\<rparr>)) now k = Some \<lparr>val = v, expires_at = None\<rparr>"
  by (simp add: live_def)

text \<open>
  C6, amended. With a client present, every request that the rate limiter admits leaves
  the counter of that client expiring 60 seconds after the request, whether or not it is
  the first of a window; a request that is not admitted leaves the whole state, and so
  the counter and its expiry, as it was.
\<close>

theorem rate_limit_expiry_refreshed:
  assumes "redis_client st = Some r"
  shows "(fst (rate_limit_middleware st now user_ip) = Inr () \<longrightarrow>
            window_expiry (snd (rate_limit_middleware st now user_ip)) user_ip = Some (now + 60))
       \<and> (fst (rate_limit_middleware st now user_ip) \<noteq> Inr () \<longrightarrow>
            snd (rate_limit_middleware st now user_ip) = st)"
proof (cases "server_up st")
  case False
  with assms show ?thesis by (simp add: rate_limit_middleware_def redis_get_def)
next
  case up: True
  note defs = rate_limit_middleware_def redis_get_def redis_incr_def redis_expire_def
    bind_res_def window_expiry_def counter_record_def
  show ?thesis
  proof (cases "live r now (REDIS_RATE_LIMIT_KEY user_ip)")
    case None
    with assms up show ?thesis by (simp add: defs live_fresh_incr)
  next
    case (Some e)
    have skip: "val e = [] \<or> (\<exists>n. int_of_str (val e) = Some n \<and> \<not> 100 < n) \<or>
        (val e \<noteq> [] \<and> (int_of_str (val e) = None \<or> (\<exists>n. int_of_str (val e) = Some n \<and> 100 < n)))"
      by (cases "int_of_str (val e)") auto
    show ?thesis
    proof (cases "val e \<noteq> [] \<and> (int_of_str (val e) = None \<or> (\<exists>n. int_of_str (val e) = Some n \<and> 100 < n))")
      case True
      with assms up Some show ?thesis by (auto simp: defs)
    next
      case False
      then have pass: "val e = [] \<or> (\<exists>n. int_of_str (val e) = Some n \<and> \<not> 100 < n)"
        using skip by blast
      show ?thesis
      proof (cases "redis_integer (val e)")
        case None
        with assms up Some pass show ?thesis by (auto simp: defs)
      next
        case counted: (Some m)
        show ?thesis
        proof (cases "2 ^ 63 - 1 < m + 1")
          case True
          with assms up Some pass counted show ?thesis by (auto simp: defs)
        next
          case False
          with assms up Some pass counted show ?thesis by (auto simp: defs live_incr)
        qed
      qed
    qed
  qed
qed

theorem rate_limit_expiry_refreshed_witness:
  "redis_client fresh = Some Map.empty
   \<and> fst (rate_limit_middleware fresh 0 ''10.0.0.1'') = Inr ()
   \<and> window_expiry (snd (rate_limit_middleware fresh 0 ''10.0.0.1'')) ''10.0.0.1'' = Some 60
   \<and> fst (rate_limit_middleware saturated 0 ''10.0.0.1'') \<noteq> Inr ()
   \<and> snd (rate_limit_middleware saturated 0 ''10.0.0.1'') = saturated"
proof -
  have l: "live Map.empty 0 (REDIS_RATE_LIMIT_KEY ''10.0.0.1'') = None" by (simp add: live_def)
  note adm = rate_limit_fresh(1) [OF fresh_client fresh_up l]
  have s: "redis_client saturated =
      Some [REDIS_RATE_LIMIT_KEY ''10.0.0.1'' \<mapsto> \<lparr>val = ''101'', expires_at = Some 60\<rparr>]"
    by (simp add: saturated_def fresh_def)
  have su: "server_up saturated" by (simp add: saturated_def fresh_def)
  have c: "counter_record saturated ''10.0.0.1'' =
      Some \<lparr>val = str_nat 101, expires_at = Some 60\<rparr>"
    by (simp add: counter_record_def s str_nat_101)
  have rej: "rate_limit_middleware saturated 0 ''10.0.0.1'' =
      (Inl (HTTPException 429 ''Too many requests. Try again later.''), saturated)"
    by (rule rate_limit_over [OF c su]) simp_all
  from rate_limit_expiry_refreshed [OF fresh_client, of 0 "''10.0.0.1''"]
       rate_limit_expiry_refreshed [OF s, of 0 "''10.0.0.1''"]
       adm rej fresh_client
  show ?thesis by simp
qed

end
